theory Spec2Isabelle
  imports Complex_Main "HOL-Library.Sublist"
begin

section \<open>Data model of the recording session\<close>

text \<open>
  The module \<open>src/context/RecordingContext.tsx\<close> holds the state of a recording session
  and the reducer that transitions it. The interfaces it imports from \<open>../types\<close> are not
  part of the sources; their fields are taken from the object literals the module builds
  (\<open>initialState\<close>, \<open>newTest\<close>, \<open>step\<close>).
\<close>

text \<open>
  Modelled from the spec: the enum \<open>HealingStrategy\<close> of \<open>../types\<close>. The three members the
  module names are constructors of their own; \<open>OTHER_STRATEGY\<close> stands for the members the
  spec leaves open.
\<close>

datatype HealingStrategy =
    ATTRIBUTE_MATCHING
  | TEXT_CONTENT_MATCHING
  | POSITIONAL_MATCHING
  | OTHER_STRATEGY string

text \<open>
  The healing configuration, with the fields of \<open>initialState.healingConfig\<close>. The module
  only stores and copies the numbers, it never computes with them.
\<close>

record HealingConfig =
  enabledStrategies :: "HealingStrategy list"
  confidenceThreshold :: real
  maxRetryAttempts :: int
  fallbackTimeout :: int

text \<open>
  \<open>Partial<RecordingState['healingConfig']>\<close>: every field may be supplied (\<open>Some\<close>) or
  left out (\<open>None\<close>).
\<close>

record PartialHealingConfig =
  set_enabledStrategies :: "HealingStrategy list option"
  set_confidenceThreshold :: "real option"
  set_maxRetryAttempts :: "int option"
  set_fallbackTimeout :: "int option"

text \<open>
  Modelled from the spec: the interface \<open>TestStep\<close> of \<open>../types\<close>. The module assigns
  \<open>id\<close> and \<open>timestamp\<close>; all other fields are the caller's (selector, action, value and so
  on) and are kept as a bag of named fields with values of an arbitrary type \<open>'v\<close>.
\<close>

record 'v TestStep =
  step_id :: string
  timestamp :: int
  payload :: "string \<rightharpoonup> 'v"

text \<open>
  \<open>Partial<TestStep>\<close>: the fields to override. Nothing in the type excludes \<open>id\<close> or
  \<open>timestamp\<close>.
\<close>

record 'v TestStepUpdates =
  set_id :: "string option"
  set_timestamp :: "int option"
  set_payload :: "string \<rightharpoonup> 'v"

text \<open>
  The element type of \<open>GeneratedTest.assertions\<close> is declared in \<open>../types\<close>; the module
  only ever builds the empty list, so an assertion is kept as an opaque text.
\<close>

datatype Assertion = Assertion string

record Viewport =
  width :: int
  height :: int

record TestMetadata =
  url :: string
  viewport :: Viewport
  createdAt :: int
  lastModified :: int

text \<open>
  The fields of the literal \<open>newTest\<close>. A \<open>Date\<close> is its number of milliseconds since the
  epoch.
\<close>

record 'v GeneratedTest =
  test_id :: string
  name :: string
  description :: string
  test_steps :: "'v TestStep list"
  assertions :: "Assertion list"
  metadata :: TestMetadata

record 'v RecordingState =
  isRecording :: bool
  isPaused :: bool
  currentTest :: "'v GeneratedTest option"
  steps :: "'v TestStep list"
  healingConfig :: HealingConfig

text \<open>
  The union \<open>RecordingAction\<close>. \<open>UNRECOGNIZED\<close> is an action object whose \<open>type\<close> is none
  of the eight tags: the reducer's \<open>default\<close> branch.
\<close>

datatype 'v RecordingAction =
    START_RECORDING string string
  | PAUSE_RECORDING
  | STOP_RECORDING
  | ADD_STEP "'v TestStep"
  | REMOVE_STEP string
  | UPDATE_STEP string "'v TestStepUpdates"
  | CLEAR_STEPS
  | UPDATE_HEALING_CONFIG PartialHealingConfig
  | UNRECOGNIZED string

section \<open>The environment: identifier generator and clock\<close>

text \<open>
  \<open>uuidv4()\<close>, \<open>new Date()\<close> and \<open>Date.now()\<close> read state outside the session. The
  environment is passed explicitly: \<open>uuid_src w k\<close> is what the \<open>k\<close>-th call of \<open>uuidv4\<close>
  returns, \<open>clock_src w k\<close> what the \<open>k\<close>-th reading of the clock returns, and the two
  counters say how many calls have been made.
\<close>

record World =
  uuid_src :: "nat \<Rightarrow> string"
  uuid_calls :: nat
  clock_src :: "nat \<Rightarrow> int"
  clock_calls :: nat

definition uuidv4 :: "World \<Rightarrow> string \<times> World" where
  "uuidv4 w = (uuid_src w (uuid_calls w), w\<lparr>uuid_calls := Suc (uuid_calls w)\<rparr>)"

definition new_Date :: "World \<Rightarrow> int \<times> World" where
  "new_Date w = (clock_src w (clock_calls w), w\<lparr>clock_calls := Suc (clock_calls w)\<rparr>)"

definition Date_now :: "World \<Rightarrow> int \<times> World" where
  "Date_now w = (clock_src w (clock_calls w), w\<lparr>clock_calls := Suc (clock_calls w)\<rparr>)"

section \<open>Initial state and reducer\<close>

definition initialState :: "'v RecordingState" where
  "initialState =
     \<lparr> isRecording = False,
       isPaused = False,
       currentTest = None,
       steps = [],
       healingConfig =
         \<lparr> enabledStrategies = [ATTRIBUTE_MATCHING, TEXT_CONTENT_MATCHING, POSITIONAL_MATCHING],
           confidenceThreshold = 0.8,
           maxRetryAttempts = 3,
           fallbackTimeout = 5000 \<rparr> \<rparr>"

text \<open>The object spread \<open>{ ...step, ...updates }\<close>: a supplied field overrides, the rest stay.\<close>

definition merge_step :: "'v TestStep \<Rightarrow> 'v TestStepUpdates \<Rightarrow> 'v TestStep" where
  "merge_step step updates =
     \<lparr> step_id = (case set_id updates of None \<Rightarrow> step_id step | Some i \<Rightarrow> i),
       timestamp = (case set_timestamp updates of None \<Rightarrow> timestamp step | Some t \<Rightarrow> t),
       payload = payload step ++ set_payload updates \<rparr>"

text \<open>The object spread \<open>{ ...state.healingConfig, ...action.payload }\<close>.\<close>

definition merge_config :: "HealingConfig \<Rightarrow> PartialHealingConfig \<Rightarrow> HealingConfig" where
  "merge_config config p =
     \<lparr> enabledStrategies =
         (case set_enabledStrategies p of None \<Rightarrow> enabledStrategies config | Some v \<Rightarrow> v),
       confidenceThreshold =
         (case set_confidenceThreshold p of None \<Rightarrow> confidenceThreshold config | Some v \<Rightarrow> v),
       maxRetryAttempts =
         (case set_maxRetryAttempts p of None \<Rightarrow> maxRetryAttempts config | Some v \<Rightarrow> v),
       fallbackTimeout =
         (case set_fallbackTimeout p of None \<Rightarrow> fallbackTimeout config | Some v \<Rightarrow> v) \<rparr>"

text \<open>
  \<open>recordingReducer(state, action)\<close>. The \<open>START_RECORDING\<close> branch calls \<open>uuidv4()\<close> once
  and \<open>new Date()\<close> twice, in this order, so the reducer takes the environment and returns
  it advanced.
\<close>

fun recordingReducer ::
  "'v RecordingState \<Rightarrow> 'v RecordingAction \<Rightarrow> World \<Rightarrow> 'v RecordingState \<times> World" where
  "recordingReducer state (START_RECORDING testName target) w =
     (let (i, w1) = uuidv4 w;
          (c, w2) = new_Date w1;
          (m, w3) = new_Date w2;
          newTest =
            \<lparr> test_id = i,
              name = testName,
              description = ''Generated test for '' @ target,
              test_steps = [],
              assertions = [],
              metadata =
                \<lparr> url = target,
                  viewport = \<lparr> width = 1920, height = 1080 \<rparr>,
                  createdAt = c,
                  lastModified = m \<rparr> \<rparr>
      in (state\<lparr> isRecording := True, isPaused := False,
                 currentTest := Some newTest, steps := [] \<rparr>, w3))"
| "recordingReducer state PAUSE_RECORDING w =
     (state\<lparr> isPaused := \<not> isPaused state \<rparr>, w)"
| "recordingReducer state STOP_RECORDING w =
     (state\<lparr> isRecording := False, isPaused := False \<rparr>, w)"
| "recordingReducer state (ADD_STEP step) w =
     (state\<lparr> steps := steps state @ [step] \<rparr>, w)"
| "recordingReducer state (REMOVE_STEP stepId) w =
     (state\<lparr> steps := filter (\<lambda>step. step_id step \<noteq> stepId) (steps state) \<rparr>, w)"
| "recordingReducer state (UPDATE_STEP stepId updates) w =
     (state\<lparr> steps :=
        map (\<lambda>step. if step_id step = stepId then merge_step step updates else step)
          (steps state) \<rparr>, w)"
| "recordingReducer state CLEAR_STEPS w =
     (state\<lparr> steps := [] \<rparr>, w)"
| "recordingReducer state (UPDATE_HEALING_CONFIG p) w =
     (state\<lparr> healingConfig := merge_config (healingConfig state) p \<rparr>, w)"
| "recordingReducer state (UNRECOGNIZED tag) w = (state, w)"

section \<open>The commands of the provider\<close>

text \<open>
  A session is the reducer's state together with the environment. \<open>dispatch\<close> hands the
  action to the reducer and the result is the next state.
\<close>

type_synonym 'v Session = "'v RecordingState \<times> World"

definition dispatch :: "'v RecordingAction \<Rightarrow> 'v Session \<Rightarrow> 'v Session" where
  "dispatch action ss = recordingReducer (fst ss) action (snd ss)"

definition startRecording :: "string \<Rightarrow> string \<Rightarrow> 'v Session \<Rightarrow> 'v Session" where
  "startRecording testName target = dispatch (START_RECORDING testName target)"

definition pauseRecording :: "'v Session \<Rightarrow> 'v Session" where
  "pauseRecording = dispatch PAUSE_RECORDING"

definition stopRecording :: "'v Session \<Rightarrow> 'v Session" where
  "stopRecording = dispatch STOP_RECORDING"

text \<open>
  The step \<open>addStep\<close> builds before it dispatches: \<open>{ ...stepData, id: uuidv4(),
  timestamp: Date.now() }\<close>.
\<close>

definition new_step :: "(string \<rightharpoonup> 'v) \<Rightarrow> World \<Rightarrow> 'v TestStep \<times> World" where
  "new_step stepData w =
     (let (i, w1) = uuidv4 w;
          (t, w2) = Date_now w1
      in (\<lparr> step_id = i, timestamp = t, payload = stepData \<rparr>, w2))"

definition addStep :: "(string \<rightharpoonup> 'v) \<Rightarrow> 'v Session \<Rightarrow> 'v Session" where
  "addStep stepData ss =
     (let (step, w') = new_step stepData (snd ss)
      in dispatch (ADD_STEP step) (fst ss, w'))"

definition removeStep :: "string \<Rightarrow> 'v Session \<Rightarrow> 'v Session" where
  "removeStep stepId = dispatch (REMOVE_STEP stepId)"

definition updateStep :: "string \<Rightarrow> 'v TestStepUpdates \<Rightarrow> 'v Session \<Rightarrow> 'v Session" where
  "updateStep stepId updates = dispatch (UPDATE_STEP stepId updates)"

definition clearSteps :: "'v Session \<Rightarrow> 'v Session" where
  "clearSteps = dispatch CLEAR_STEPS"

definition updateHealingConfig :: "PartialHealingConfig \<Rightarrow> 'v Session \<Rightarrow> 'v Session" where
  "updateHealingConfig p = dispatch (UPDATE_HEALING_CONFIG p)"

text \<open>A call of one of the eight commands, and the run of a sequence of calls.\<close>

datatype 'v Command =
    Start string string
  | Pause
  | Stop
  | AddStep "string \<rightharpoonup> 'v"
  | RemoveStep string
  | UpdateStep string "'v TestStepUpdates"
  | ClearSteps
  | UpdateHealingConfig PartialHealingConfig

fun perform :: "'v Command \<Rightarrow> 'v Session \<Rightarrow> 'v Session" where
  "perform (Start testName target) ss = startRecording testName target ss"
| "perform Pause ss = pauseRecording ss"
| "perform Stop ss = stopRecording ss"
| "perform (AddStep stepData) ss = addStep stepData ss"
| "perform (RemoveStep stepId) ss = removeStep stepId ss"
| "perform (UpdateStep stepId updates) ss = updateStep stepId updates ss"
| "perform ClearSteps ss = clearSteps ss"
| "perform (UpdateHealingConfig p) ss = updateHealingConfig p ss"

fun run :: "'v Command list \<Rightarrow> 'v Session \<Rightarrow> 'v Session" where
  "run [] ss = ss"
| "run (c # cs) ss = run cs (perform c ss)"

section \<open>Observations on a run\<close>

text \<open>
  The steps that the \<open>addStep\<close> calls of a command sequence build, in the order of the
  calls: each is the step \<open>addStep\<close> hands to the reducer in the session it is called in.
\<close>

fun added_steps :: "'v Command list \<Rightarrow> 'v Session \<Rightarrow> 'v TestStep list" where
  "added_steps [] ss = []"
| "added_steps (c # cs) ss =
     (case c of AddStep stepData \<Rightarrow> [fst (new_step stepData (snd ss))] | _ \<Rightarrow> [])
       @ added_steps cs (perform c ss)"

text \<open>The commands of the step ledger that add or remove a single step.\<close>

fun adds_or_removes :: "'v Command \<Rightarrow> bool" where
  "adds_or_removes (AddStep stepData) = True"
| "adds_or_removes (RemoveStep stepId) = True"
| "adds_or_removes c = False"

text \<open>A command that does not overwrite the \<open>id\<close> of a step.\<close>

fun keeps_ids :: "'v Command \<Rightarrow> bool" where
  "keeps_ids (UpdateStep stepId updates) = (set_id updates = None)"
| "keeps_ids c = True"

text \<open>The commands that call \<open>uuidv4\<close> or read the clock.\<close>

fun reads_environment :: "'v Command \<Rightarrow> bool" where
  "reads_environment (Start testName target) = True"
| "reads_environment (AddStep stepData) = True"
| "reads_environment c = False"

text \<open>
  The identifiers the generator has handed out so far, and two properties of a session:
  the identifier of its current test is among them, and so are the identifiers of its steps.
\<close>

definition drawn :: "World \<Rightarrow> string set" where
  "drawn w = uuid_src w ` {..<uuid_calls w}"

definition test_id_drawn :: "'v Session \<Rightarrow> bool" where
  "test_id_drawn ss =
     (case currentTest (fst ss) of None \<Rightarrow> True | Some t \<Rightarrow> test_id t \<in> drawn (snd ss))"

definition step_ids_drawn :: "'v Session \<Rightarrow> bool" where
  "step_ids_drawn ss = (step_id ` set (steps (fst ss)) \<subseteq> drawn (snd ss))"

section \<open>A concrete environment and concrete ledgers\<close>

text \<open>
  An environment whose generator never repeats itself: the \<open>k\<close>-th identifier is
  \<open>u\<close> followed by \<open>k\<close> times \<open>x\<close>, and the clock advances by one millisecond a reading.
\<close>

definition sample_world :: World where
  "sample_world =
     \<lparr> uuid_src = (\<lambda>k. CHR ''u'' # replicate k (CHR ''x'')),
       uuid_calls = 0,
       clock_src = (\<lambda>k. 1000 + int k),
       clock_calls = 0 \<rparr>"

definition click_submit :: "string \<rightharpoonup> string" where
  "click_submit = [''action'' \<mapsto> ''click'', ''selector'' \<mapsto> ''#submit'']"

definition type_user :: "string \<rightharpoonup> string" where
  "type_user = [''action'' \<mapsto> ''type'', ''selector'' \<mapsto> ''#user'', ''value'' \<mapsto> ''alice'']"

section \<open>Auxiliary facts\<close>

lemmas command_defs =
  startRecording_def pauseRecording_def stopRecording_def addStep_def removeStep_def
  updateStep_def clearSteps_def updateHealingConfig_def dispatch_def new_step_def
  uuidv4_def new_Date_def Date_now_def Let_def

lemma uuid_src_perform: "uuid_src (snd (perform c ss)) = uuid_src (snd ss)"
  by (cases c) (simp_all add: command_defs)

lemma uuid_calls_perform: "uuid_calls (snd ss) \<le> uuid_calls (snd (perform c ss))"
  by (cases c) (simp_all add: command_defs)

lemma next_uuid_fresh: "inj (uuid_src w) \<Longrightarrow> uuid_src w (uuid_calls w) \<notin> drawn w"
  by (auto simp: drawn_def dest: injD)

lemma drawn_clock [simp]: "drawn (w\<lparr>clock_calls := n\<rparr>) = drawn w"
  by (simp add: drawn_def)

lemma drawn_Suc: "drawn (w\<lparr>uuid_calls := Suc (uuid_calls w)\<rparr>) = insert (uuid_src w (uuid_calls w)) (drawn w)"
  by (auto simp: drawn_def lessThan_Suc)

lemma step_ids_update_None:
  "set_id updates = None \<Longrightarrow>
   map step_id (map (\<lambda>step. if step_id step = stepId then merge_step step updates else step) xs)
     = map step_id xs"
  by (induction xs) (simp_all add: merge_step_def)

lemma test_id_drawn_perform: "test_id_drawn ss \<Longrightarrow> test_id_drawn (perform c ss)"
  by (cases c) (auto simp: test_id_drawn_def command_defs drawn_Suc split: option.splits)

lemma test_id_drawn_run: "test_id_drawn ss \<Longrightarrow> test_id_drawn (run cs ss)"
  by (induction cs arbitrary: ss) (simp_all add: test_id_drawn_perform)

lemma test_id_drawn_initial: "test_id_drawn (initialState, w)"
  by (simp add: test_id_drawn_def initialState_def)

lemma step_ids_drawn_perform:
  assumes "step_ids_drawn ss" and "keeps_ids c"
  shows "step_ids_drawn (perform c ss)"
proof (cases c)
  case (UpdateStep i u)
  with assms(2) have n: "set_id u = None" by simp
  have "step_id ` set (map (\<lambda>step. if step_id step = i then merge_step step u else step)
          (steps (fst ss))) = step_id ` set (steps (fst ss))"
    using step_ids_update_None [OF n, of i "steps (fst ss)"] by (metis list.set_map)
  with assms(1) UpdateStep show ?thesis
    by (simp add: step_ids_drawn_def command_defs del: set_map)
qed (use assms(1) in \<open>auto simp: step_ids_drawn_def command_defs drawn_Suc\<close>)

lemma step_ids_drawn_run:
  "step_ids_drawn ss \<Longrightarrow> \<forall>c \<in> set cs. keeps_ids c \<Longrightarrow> step_ids_drawn (run cs ss)"
  by (induction cs arbitrary: ss) (simp_all add: step_ids_drawn_perform)

lemma step_ids_drawn_initial: "step_ids_drawn (initialState, w)"
  by (simp add: step_ids_drawn_def initialState_def)

lemma distinct_ids_perform:
  assumes "inj (uuid_src (snd ss))" and "step_ids_drawn ss" and "keeps_ids c"
    and "distinct (map step_id (steps (fst ss)))"
  shows "distinct (map step_id (steps (fst (perform c ss))))"
proof (cases c)
  case (AddStep d)
  have "uuid_src (snd ss) (uuid_calls (snd ss)) \<notin> step_id ` set (steps (fst ss))"
    using next_uuid_fresh [OF assms(1)] assms(2) by (auto simp: step_ids_drawn_def)
  with assms(4) AddStep show ?thesis by (simp add: command_defs)
next
  case (RemoveStep i)
  with assms(4) show ?thesis by (simp add: command_defs distinct_map_filter)
next
  case (UpdateStep i u)
  with assms(3) have "set_id u = None" by simp
  with assms(4) UpdateStep show ?thesis
    by (simp add: command_defs step_ids_update_None del: map_map)
qed (use assms(4) in \<open>simp_all add: command_defs\<close>)

lemma distinct_ids_run:
  "inj (uuid_src (snd ss)) \<Longrightarrow> step_ids_drawn ss \<Longrightarrow> \<forall>c \<in> set cs. keeps_ids c \<Longrightarrow>
   distinct (map step_id (steps (fst ss))) \<Longrightarrow>
   distinct (map step_id (steps (fst (run cs ss))))"
proof (induction cs arbitrary: ss)
  case Nil
  then show ?case by simp
next
  case (Cons c cs)
  have "distinct (map step_id (steps (fst (run cs (perform c ss)))))"
  proof (rule Cons.IH)
    show "inj (uuid_src (snd (perform c ss)))" using Cons.prems(1) by (simp add: uuid_src_perform)
    show "step_ids_drawn (perform c ss)" using Cons.prems by (simp add: step_ids_drawn_perform)
    show "\<forall>c \<in> set cs. keeps_ids c" using Cons.prems by simp
    show "distinct (map step_id (steps (fst (perform c ss))))"
      using Cons.prems by (simp add: distinct_ids_perform)
  qed
  then show ?case by simp
qed

lemma added_ids_later:
  "step_id ` set (added_steps cs ss) \<subseteq> uuid_src (snd ss) ` {uuid_calls (snd ss)..}"
proof (induction cs arbitrary: ss)
  case Nil
  show ?case by simp
next
  case (Cons c cs)
  have "step_id ` set (added_steps cs (perform c ss))
      \<subseteq> uuid_src (snd (perform c ss)) ` {uuid_calls (snd (perform c ss))..}"
    by (rule Cons.IH)
  also have "\<dots> \<subseteq> uuid_src (snd ss) ` {uuid_calls (snd ss)..}"
    using uuid_calls_perform [of ss c] by (auto simp: uuid_src_perform)
  finally have tl: "step_id ` set (added_steps cs (perform c ss))
      \<subseteq> uuid_src (snd ss) ` {uuid_calls (snd ss)..}" .
  show ?case
    using tl by (cases c) (auto simp: new_step_def uuidv4_def Date_now_def Let_def)
qed

lemma added_ids_distinct:
  "inj (uuid_src (snd ss)) \<Longrightarrow> distinct (map step_id (added_steps cs ss))"
proof (induction cs arbitrary: ss)
  case Nil
  show ?case by simp
next
  case (Cons c cs)
  have inj': "inj (uuid_src (snd (perform c ss)))"
    using Cons.prems by (simp add: uuid_src_perform)
  have tl: "distinct (map step_id (added_steps cs (perform c ss)))"
    by (rule Cons.IH [OF inj'])
  show ?case
  proof (cases c)
    case (AddStep d)
    have "step_id ` set (added_steps cs (perform c ss))
        \<subseteq> uuid_src (snd ss) ` {Suc (uuid_calls (snd ss))..}"
      using added_ids_later [of cs "perform c ss"] AddStep
      by (simp add: command_defs)
    moreover have "uuid_src (snd ss) (uuid_calls (snd ss))
        \<notin> uuid_src (snd ss) ` {Suc (uuid_calls (snd ss))..}"
      using Cons.prems by (auto dest: injD)
    ultimately have "step_id (fst (new_step d (snd ss)))
        \<notin> step_id ` set (added_steps cs (perform c ss))"
      by (auto simp: new_step_def uuidv4_def Date_now_def Let_def)
    with tl AddStep show ?thesis by simp
  qed (use tl in simp_all)
qed

lemma steps_addStep: "steps (fst (addStep d (s, w))) = steps s @ [fst (new_step d w)]"
  by (simp add: addStep_def dispatch_def new_step_def uuidv4_def Date_now_def Let_def)

lemma steps_removeStep:
  "steps (fst (removeStep i (s, w))) = filter (\<lambda>step. step_id step \<noteq> i) (steps s)"
  by (simp add: removeStep_def dispatch_def)

lemma subseq_run:
  "\<forall>c \<in> set cs. adds_or_removes c \<Longrightarrow>
   subseq (steps (fst (run cs (s, w)))) (steps s @ added_steps cs (s, w))"
proof (induction cs arbitrary: s w)
  case Nil
  show ?case by simp
next
  case (Cons c cs)
  obtain s' w' where p: "perform c (s, w) = (s', w')" by (cases "perform c (s, w)")
  from Cons.prems have rest: "\<forall>c \<in> set cs. adds_or_removes c" by simp
  have ih: "subseq (steps (fst (run cs (s', w')))) (steps s' @ added_steps cs (s', w'))"
    using Cons.IH [OF rest] .
  from Cons.prems have "adds_or_removes c" by simp
  then show ?case
  proof (cases c)
    case (AddStep d)
    with p have "steps s' = steps s @ [fst (new_step d w)]"
      using steps_addStep [of d s w] by simp
    with ih p AddStep show ?thesis by simp
  next
    case (RemoveStep i)
    with p have "steps s' = filter (\<lambda>step. step_id step \<noteq> i) (steps s)"
      using steps_removeStep [of i s w] by simp
    then have "subseq (steps s' @ added_steps cs (s', w')) (steps s @ added_steps cs (s', w'))"
      by (simp add: list_emb_append_mono)
    with ih have "subseq (steps (fst (run cs (s', w')))) (steps s @ added_steps cs (s', w'))"
      by (rule subseq_order.trans)
    with p RemoveStep show ?thesis by simp
  qed simp_all
qed

lemma sample_world_inj: "inj (uuid_src sample_world)"
  by (simp add: sample_world_def inj_def)

lemma uuid_src_run: "uuid_src (snd (run cs ss)) = uuid_src (snd ss)"
  by (induction cs arbitrary: ss) (simp_all add: uuid_src_perform)

lemma filter_unknown_id:
  "stepId \<notin> step_id ` set xs \<Longrightarrow> filter (\<lambda>step. step_id step \<noteq> stepId) xs = xs"
  by (induction xs) auto

lemma map_unknown_id:
  "stepId \<notin> step_id ` set xs \<Longrightarrow>
   map (\<lambda>step. if step_id step = stepId then merge_step step updates else step) xs = xs"
  by (induction xs) auto

lemma healingConfig_reducer:
  "\<forall>p. a \<noteq> UPDATE_HEALING_CONFIG p \<Longrightarrow>
   healingConfig (fst (recordingReducer s a w)) = healingConfig s"
  by (cases a) (simp_all add: uuidv4_def new_Date_def Let_def)

lemma healingConfig_perform:
  "\<forall>p. c \<noteq> UpdateHealingConfig p \<Longrightarrow>
   healingConfig (fst (perform c ss)) = healingConfig (fst ss)"
  by (cases c) (simp_all add: command_defs)

lemma healingConfig_run:
  "\<forall>c \<in> set cs. \<forall>p. c \<noteq> UpdateHealingConfig p \<Longrightarrow>
   healingConfig (fst (run cs ss)) = healingConfig (fst ss)"
  by (induction cs arbitrary: ss) (simp_all add: healingConfig_perform)

lemma start_equal_iff:
  "(fst (recordingReducer s (START_RECORDING testName target) w1)
      = fst (recordingReducer s (START_RECORDING testName target) w2))
   = (uuid_src w1 (uuid_calls w1) = uuid_src w2 (uuid_calls w2)
      \<and> clock_src w1 (clock_calls w1) = clock_src w2 (clock_calls w2)
      \<and> clock_src w1 (Suc (clock_calls w1)) = clock_src w2 (Suc (clock_calls w2)))"
proof
  assume eq: "fst (recordingReducer s (START_RECORDING testName target) w1)
      = fst (recordingReducer s (START_RECORDING testName target) w2)"
  from arg_cong [OF eq, of currentTest]
  show "uuid_src w1 (uuid_calls w1) = uuid_src w2 (uuid_calls w2)
      \<and> clock_src w1 (clock_calls w1) = clock_src w2 (clock_calls w2)
      \<and> clock_src w1 (Suc (clock_calls w1)) = clock_src w2 (Suc (clock_calls w2))"
    by (simp add: uuidv4_def new_Date_def Let_def)
next
  assume "uuid_src w1 (uuid_calls w1) = uuid_src w2 (uuid_calls w2)
      \<and> clock_src w1 (clock_calls w1) = clock_src w2 (clock_calls w2)
      \<and> clock_src w1 (Suc (clock_calls w1)) = clock_src w2 (Suc (clock_calls w2))"
  then show "fst (recordingReducer s (START_RECORDING testName target) w1)
      = fst (recordingReducer s (START_RECORDING testName target) w2)"
    by (simp add: uuidv4_def new_Date_def Let_def)
qed

lemma addStep_equal_iff:
  "(fst (addStep stepData (s, w1)) = fst (addStep stepData (s, w2)))
   = (uuid_src w1 (uuid_calls w1) = uuid_src w2 (uuid_calls w2)
      \<and> clock_src w1 (clock_calls w1) = clock_src w2 (clock_calls w2))"
proof
  assume eq: "fst (addStep stepData (s, w1)) = fst (addStep stepData (s, w2))"
  from arg_cong [OF eq, of steps]
  show "uuid_src w1 (uuid_calls w1) = uuid_src w2 (uuid_calls w2)
      \<and> clock_src w1 (clock_calls w1) = clock_src w2 (clock_calls w2)"
    by (simp add: command_defs)
next
  assume "uuid_src w1 (uuid_calls w1) = uuid_src w2 (uuid_calls w2)
      \<and> clock_src w1 (clock_calls w1) = clock_src w2 (clock_calls w2)"
  then show "fst (addStep stepData (s, w1)) = fst (addStep stepData (s, w2))"
    by (simp add: command_defs)
qed

lemma other_commands_equal:
  "\<not> reads_environment c \<Longrightarrow> fst (perform c (s, w1)) = fst (perform c (s, w2))"
  by (cases c) (simp_all add: command_defs)

lemma other_actions_equal:
  "\<forall>testName target. a \<noteq> START_RECORDING testName target \<Longrightarrow>
   fst (recordingReducer s a w1) = fst (recordingReducer s a w2)"
  by (cases a) simp_all

section \<open>Session controller\<close>

text \<open>
  Claim C1. From any state, \<open>start(testName, url)\<close> yields a recording, unpaused session
  with no steps and a current test named \<open>testName\<close>, described as
  \<open>Generated test for url\<close>, with \<open>metadata.url = url\<close> and the viewport 1920x1080.
  Its id is the next value of the generator; when the generator never repeats a value
  and the session was reached from the initial state by commands, that id differs from
  the id of the test the session held before.
\<close>

theorem start_begins_fresh_test:
  assumes "startRecording testName target (s, w) = (s', w')"
  shows "isRecording s' \<and> \<not> isPaused s' \<and> steps s' = [] \<and>
    (\<exists>t. currentTest s' = Some t
       \<and> name t = testName
       \<and> description t = ''Generated test for '' @ target
       \<and> url (metadata t) = target
       \<and> viewport (metadata t) = \<lparr> width = 1920, height = 1080 \<rparr>
       \<and> test_id t = uuid_src w (uuid_calls w)
       \<and> (inj (uuid_src w) \<and> run cs (initialState, w0) = (s, w)
            \<longrightarrow> (\<forall>t0. currentTest s = Some t0 \<longrightarrow> test_id t \<noteq> test_id t0)))"
proof -
  have fresh: "inj (uuid_src w) \<and> run cs (initialState, w0) = (s, w)
      \<longrightarrow> (\<forall>t0. currentTest s = Some t0 \<longrightarrow> uuid_src w (uuid_calls w) \<noteq> test_id t0)"
  proof (intro impI allI, elim conjE)
    fix t0
    assume i: "inj (uuid_src w)" and r: "run cs (initialState, w0) = (s, w)"
      and c: "currentTest s = Some t0"
    have "test_id_drawn (s, w)"
      using test_id_drawn_run [OF test_id_drawn_initial, of cs w0] r by simp
    with c have "test_id t0 \<in> drawn w" by (simp add: test_id_drawn_def)
    with next_uuid_fresh [OF i] show "uuid_src w (uuid_calls w) \<noteq> test_id t0" by auto
  qed
  from assms have s': "s' = fst (recordingReducer s (START_RECORDING testName target) w)"
    by (simp add: startRecording_def dispatch_def)
  show ?thesis
    unfolding s' using fresh by (simp add: uuidv4_def new_Date_def Let_def)
qed

theorem start_begins_fresh_test_witness:
  "isRecording (fst (startRecording ''t2'' ''http://b''
      (run [Start ''t1'' ''http://a'', AddStep click_submit] (initialState, sample_world))))
   \<and> steps (fst (run [Start ''t1'' ''http://a'', AddStep click_submit]
        (initialState, sample_world))) \<noteq> []
   \<and> steps (fst (startRecording ''t2'' ''http://b''
      (run [Start ''t1'' ''http://a'', AddStep click_submit] (initialState, sample_world)))) = []
   \<and> map_option test_id (currentTest (fst (run [Start ''t1'' ''http://a'', AddStep click_submit]
        (initialState, sample_world)))) = Some ''u''
   \<and> map_option test_id (currentTest (fst (startRecording ''t2'' ''http://b''
      (run [Start ''t1'' ''http://a'', AddStep click_submit] (initialState, sample_world)))))
        = Some ''uxx''"
  using start_begins_fresh_test [where testName = "''t2''" and target = "''http://b''"
      and s = "fst (run [Start ''t1'' ''http://a'', AddStep click_submit] (initialState, sample_world))"
      and w = "snd (run [Start ''t1'' ''http://a'', AddStep click_submit] (initialState, sample_world))"
      and s' = "fst (startRecording ''t2'' ''http://b''
      (run [Start ''t1'' ''http://a'', AddStep click_submit] (initialState, sample_world)))"
      and w' = "snd (startRecording ''t2'' ''http://b''
      (run [Start ''t1'' ''http://a'', AddStep click_submit] (initialState, sample_world)))"
      and cs = "[Start ''t1'' ''http://a'', AddStep click_submit]" and ?w0.0 = sample_world]
    sample_world_inj
  by (simp add: command_defs sample_world_def initialState_def)

text \<open>
  Claim C7. \<open>pause()\<close> negates \<open>isPaused\<close> whatever \<open>isRecording\<close> is and changes nothing
  else; two consecutive calls give the session back as it was.
\<close>

theorem pause_is_toggle:
  "pauseRecording (s, w) = (s\<lparr> isPaused := \<not> isPaused s \<rparr>, w)
   \<and> isPaused (fst (pauseRecording (s, w))) = (\<not> isPaused s)
   \<and> pauseRecording (pauseRecording (s, w)) = (s, w)"
  by (simp add: pauseRecording_def dispatch_def)

text \<open>
  Claim C9. \<open>stop()\<close> sets \<open>isRecording\<close> and \<open>isPaused\<close> to false and leaves the current
  test, the steps and the healing configuration as they were.
\<close>

theorem stop_retains_test_and_steps:
  "stopRecording (s, w) = (s\<lparr> isRecording := False, isPaused := False \<rparr>, w)
   \<and> \<not> isRecording (fst (stopRecording (s, w)))
   \<and> \<not> isPaused (fst (stopRecording (s, w)))
   \<and> currentTest (fst (stopRecording (s, w))) = currentTest s
   \<and> steps (fst (stopRecording (s, w))) = steps s
   \<and> healingConfig (fst (stopRecording (s, w))) = healingConfig s"
  by (simp add: stopRecording_def dispatch_def)

text \<open>
  Claim C4, amended. The state after a command is determined by the state before it, the
  payload, and the values the command obtains from \<open>uuidv4\<close> and the clock. The commands
  other than \<open>start\<close> and \<open>addStep\<close> consult neither: from equal states with equal
  payloads they give equal states in any two environments, and so does every reducer
  action other than \<open>START_RECORDING\<close>. Two runs of \<open>start\<close> give equal states exactly when
  the generator returns the same identifier and the clock the same two readings; two runs
  of \<open>addStep\<close> give equal states exactly when the generator returns the same identifier
  and the clock the same one reading.
\<close>

theorem state_determined_with_environment:
  "(\<not> reads_environment c \<longrightarrow> fst (perform c (s, w1)) = fst (perform c (s, w2)))
   \<and> ((fst (perform (Start testName target) (s, w1))
         = fst (perform (Start testName target) (s, w2)))
       = (uuid_src w1 (uuid_calls w1) = uuid_src w2 (uuid_calls w2)
          \<and> clock_src w1 (clock_calls w1) = clock_src w2 (clock_calls w2)
          \<and> clock_src w1 (Suc (clock_calls w1)) = clock_src w2 (Suc (clock_calls w2))))
   \<and> ((fst (perform (AddStep stepData) (s, w1)) = fst (perform (AddStep stepData) (s, w2)))
       = (uuid_src w1 (uuid_calls w1) = uuid_src w2 (uuid_calls w2)
          \<and> clock_src w1 (clock_calls w1) = clock_src w2 (clock_calls w2)))
   \<and> ((\<forall>testName target. a \<noteq> START_RECORDING testName target)
       \<longrightarrow> fst (recordingReducer s a w1) = fst (recordingReducer s a w2))"
proof (intro conjI impI)
  assume "\<not> reads_environment c"
  then show "fst (perform c (s, w1)) = fst (perform c (s, w2))"
    by (rule other_commands_equal)
next
  show "(fst (perform (Start testName target) (s, w1))
         = fst (perform (Start testName target) (s, w2)))
       = (uuid_src w1 (uuid_calls w1) = uuid_src w2 (uuid_calls w2)
          \<and> clock_src w1 (clock_calls w1) = clock_src w2 (clock_calls w2)
          \<and> clock_src w1 (Suc (clock_calls w1)) = clock_src w2 (Suc (clock_calls w2)))"
    using start_equal_iff [of s testName target w1 w2]
    by (simp add: startRecording_def dispatch_def)
next
  show "(fst (perform (AddStep stepData) (s, w1)) = fst (perform (AddStep stepData) (s, w2)))
       = (uuid_src w1 (uuid_calls w1) = uuid_src w2 (uuid_calls w2)
          \<and> clock_src w1 (clock_calls w1) = clock_src w2 (clock_calls w2))"
    using addStep_equal_iff [of stepData s w1 w2] by simp
next
  assume "\<forall>testName target. a \<noteq> START_RECORDING testName target"
  then show "fst (recordingReducer s a w1) = fst (recordingReducer s a w2)"
    by (rule other_actions_equal)
qed

theorem state_determined_with_environment_witness:
  "fst (perform (RemoveStep ''a'')
      (initialState\<lparr> steps := [\<lparr> step_id = ''a'', timestamp = 1, payload = click_submit \<rparr>] \<rparr>,
       sample_world))
   = fst (perform (RemoveStep ''a'')
      (initialState\<lparr> steps := [\<lparr> step_id = ''a'', timestamp = 1, payload = click_submit \<rparr>] \<rparr>,
       sample_world\<lparr> uuid_calls := 1 \<rparr>))
   \<and> fst (recordingReducer
       (initialState\<lparr> steps := [\<lparr> step_id = ''a'', timestamp = 1, payload = click_submit \<rparr>] \<rparr>)
       (REMOVE_STEP ''a'') sample_world)
   = fst (recordingReducer
       (initialState\<lparr> steps := [\<lparr> step_id = ''a'', timestamp = 1, payload = click_submit \<rparr>] \<rparr>)
       (REMOVE_STEP ''a'') (sample_world\<lparr> uuid_calls := 1 \<rparr>))
   \<and> fst (perform (Start ''t'' ''http://a'')
       (initialState :: string RecordingState, sample_world))
   = fst (perform (Start ''t'' ''http://a'')
       (initialState :: string RecordingState,
        sample_world\<lparr> clock_calls := 5, clock_src := (\<lambda>k. 995 + int k) \<rparr>))
   \<and> fst (perform (Start ''t'' ''http://a'')
       (initialState :: string RecordingState, sample_world))
   \<noteq> fst (perform (Start ''t'' ''http://a'')
       (initialState :: string RecordingState,
        sample_world\<lparr> clock_src := (\<lambda>k. if k = 1 then 0 else 1000 + int k) \<rparr>))
   \<and> fst (perform (AddStep click_submit) (initialState, sample_world))
   = fst (perform (AddStep click_submit)
       (initialState, sample_world\<lparr> clock_src := (\<lambda>k. if k = 1 then 0 else 1000 + int k) \<rparr>))
   \<and> fst (perform (AddStep click_submit) (initialState, sample_world))
   \<noteq> fst (perform (AddStep click_submit) (initialState, sample_world\<lparr> uuid_calls := 1 \<rparr>))
   \<and> fst (perform (AddStep click_submit) (initialState, sample_world))
   \<noteq> fst (perform (AddStep click_submit) (initialState, sample_world\<lparr> clock_calls := 1 \<rparr>))"
  using state_determined_with_environment [of "RemoveStep ''a''"
      "initialState\<lparr> steps := [\<lparr> step_id = ''a'', timestamp = 1, payload = click_submit \<rparr>] \<rparr>"
      sample_world "sample_world\<lparr> uuid_calls := 1 \<rparr>" _ _ _ "REMOVE_STEP ''a''"]
    state_determined_with_environment [of _ "initialState :: string RecordingState" sample_world
      "sample_world\<lparr> clock_calls := 5, clock_src := (\<lambda>k. 995 + int k) \<rparr>"
      "''t''" "''http://a''"]
    state_determined_with_environment [of _ "initialState :: string RecordingState" sample_world
      "sample_world\<lparr> clock_src := (\<lambda>k. if k = 1 then 0 else 1000 + int k) \<rparr>"
      "''t''" "''http://a''" click_submit]
    state_determined_with_environment [of _ "initialState :: string RecordingState" sample_world
      "sample_world\<lparr> uuid_calls := 1 \<rparr>" _ _ click_submit]
    state_determined_with_environment [of _ "initialState :: string RecordingState" sample_world
      "sample_world\<lparr> clock_calls := 1 \<rparr>" _ _ click_submit]
  by (simp add: sample_world_def)

text \<open>
  The claim as stated fails: two runs of \<open>start\<close> with the same arguments from the same
  state differ in the test they create when the generator has meanwhile handed out
  another identifier.
\<close>

theorem start_depends_on_generator:
  "fst (startRecording ''t'' ''http://a'' (initialState :: string RecordingState, sample_world))
   \<noteq> fst (startRecording ''t'' ''http://a''
        (initialState :: string RecordingState, sample_world\<lparr> uuid_calls := 1 \<rparr>))"
  by (simp add: command_defs sample_world_def initialState_def)

section \<open>Step ledger\<close>

text \<open>
  Claim C3. \<open>addStep\<close> appends the step it builds at the end, \<open>removeStep\<close> filters the
  sequence without reordering it, and after any sequence of \<open>addStep\<close> and \<open>removeStep\<close>
  calls the ledger is a subsequence of the steps it held at first followed by the added
  steps in the order of the calls.
\<close>

theorem ledger_keeps_insertion_order:
  "steps (fst (addStep stepData (s, w))) = steps s @ [fst (new_step stepData w)]
   \<and> steps (fst (removeStep stepId (s, w))) = filter (\<lambda>step. step_id step \<noteq> stepId) (steps s)
   \<and> subseq (steps (fst (removeStep stepId (s, w)))) (steps s)
   \<and> ((\<forall>c \<in> set cs. adds_or_removes c)
        \<longrightarrow> subseq (steps (fst (run cs (s, w)))) (steps s @ added_steps cs (s, w)))"
  using subseq_run [of cs s w]
  by (simp add: steps_addStep steps_removeStep)

theorem ledger_keeps_insertion_order_witness:
  "map step_id (added_steps [AddStep click_submit, AddStep type_user, RemoveStep ''u'']
      (initialState, sample_world)) = [''u'', ''ux'']
   \<and> map step_id (steps (fst (run [AddStep click_submit, AddStep type_user, RemoveStep ''u'']
      (initialState, sample_world)))) = [''ux'']
   \<and> subseq (steps (fst (run [AddStep click_submit, AddStep type_user, RemoveStep ''u'']
      (initialState, sample_world))))
       (added_steps [AddStep click_submit, AddStep type_user, RemoveStep ''u'']
      (initialState, sample_world))"
  using ledger_keeps_insertion_order [of click_submit initialState sample_world "''u''"
      "[AddStep click_submit, AddStep type_user, RemoveStep ''u'']"]
  by (simp add: command_defs sample_world_def initialState_def)

text \<open>
  Claim C2, amended. When the generator never repeats a value, the identifiers that the
  \<open>addStep\<close> calls of any command sequence generate are pairwise distinct, whether or not
  the steps are removed later; and as long as no \<open>updateStep\<close> supplies an \<open>id\<close>, the
  identifiers within the ledger of a session started from the initial state are pairwise
  distinct.
\<close>

theorem generated_ids_distinct:
  assumes "inj (uuid_src w)"
  shows "distinct (map step_id (added_steps cs (s, w)))
    \<and> ((\<forall>c \<in> set cs. keeps_ids c)
        \<longrightarrow> distinct (map step_id (steps (fst (run cs (initialState, w))))))"
proof -
  have "distinct (map step_id (added_steps cs (s, w)))"
    using added_ids_distinct [of "(s, w)" cs] assms by simp
  moreover have "distinct (map step_id (steps (fst (run cs (initialState, w)))))"
    if "\<forall>c \<in> set cs. keeps_ids c"
    using distinct_ids_run [of "(initialState, w)" cs] assms that
    by (simp add: step_ids_drawn_initial) (simp add: initialState_def)
  ultimately show ?thesis by simp
qed

theorem generated_ids_distinct_witness:
  "map step_id (added_steps
      [AddStep click_submit, AddStep type_user, RemoveStep ''u'',
       UpdateStep ''ux'' \<lparr> set_id = None, set_timestamp = None, set_payload = click_submit \<rparr>,
       AddStep click_submit]
      (initialState, sample_world)) = [''u'', ''ux'', ''uxx'']
   \<and> map step_id (steps (fst (run
      [AddStep click_submit, AddStep type_user, RemoveStep ''u'',
       UpdateStep ''ux'' \<lparr> set_id = None, set_timestamp = None, set_payload = click_submit \<rparr>,
       AddStep click_submit]
      (initialState, sample_world)))) = [''ux'', ''uxx'']
   \<and> distinct (map step_id (steps (fst (run
      [AddStep click_submit, AddStep type_user, RemoveStep ''u'',
       UpdateStep ''ux'' \<lparr> set_id = None, set_timestamp = None, set_payload = click_submit \<rparr>,
       AddStep click_submit]
      (initialState, sample_world)))))"
  using generated_ids_distinct [OF sample_world_inj, of
      "[AddStep click_submit, AddStep type_user, RemoveStep ''u'',
       UpdateStep ''ux'' \<lparr> set_id = None, set_timestamp = None, set_payload = click_submit \<rparr>,
       AddStep click_submit]" initialState]
  by (simp add: command_defs sample_world_def initialState_def merge_step_def)

text \<open>
  The claim as stated fails: an \<open>updateStep\<close> that supplies the \<open>id\<close> of another step leaves
  two steps with the same identifier in the ledger, with a generator that never repeats
  itself.
\<close>

theorem step_ids_collide_after_update:
  "inj (uuid_src sample_world)
   \<and> map step_id (steps (fst (run
        [AddStep click_submit, AddStep type_user,
         UpdateStep ''u'' \<lparr> set_id = Some ''ux'', set_timestamp = None, set_payload = Map.empty \<rparr>]
        (initialState, sample_world)))) = [''ux'', ''ux'']
   \<and> \<not> distinct (map step_id (steps (fst (run
        [AddStep click_submit, AddStep type_user,
         UpdateStep ''u'' \<lparr> set_id = Some ''ux'', set_timestamp = None, set_payload = Map.empty \<rparr>]
        (initialState, sample_world)))))"
proof -
  have ids: "map step_id (steps (fst (run
        [AddStep click_submit, AddStep type_user,
         UpdateStep ''u'' \<lparr> set_id = Some ''ux'', set_timestamp = None, set_payload = Map.empty \<rparr>]
        (initialState, sample_world)))) = [''ux'', ''ux'']"
    by (simp add: command_defs sample_world_def initialState_def merge_step_def)
  show ?thesis
    unfolding ids using sample_world_inj by simp
qed

text \<open>
  Claim C5, amended. \<open>updateStep(id, partialFields)\<close> keeps the length of the ledger; at
  every position, a step whose id is \<open>id\<close> becomes its shallow merge with \<open>partialFields\<close>
  (each supplied field overrides, every other field stays) and any other step is unchanged;
  the ids of the steps are unchanged when \<open>partialFields\<close> supplies no \<open>id\<close>. Nothing but
  the steps changes.
\<close>

theorem updateStep_merges_in_place:
  assumes "updateStep stepId updates (s, w) = (s', w')"
  shows "length (steps s') = length (steps s)
    \<and> (\<forall>k < length (steps s).
          steps s' ! k = (if step_id (steps s ! k) = stepId
                          then merge_step (steps s ! k) updates else steps s ! k))
    \<and> (set_id updates = None \<longrightarrow> map step_id (steps s') = map step_id (steps s))
    \<and> (\<forall>step key.
          step_id (merge_step step updates)
            = (case set_id updates of None \<Rightarrow> step_id step | Some i \<Rightarrow> i)
          \<and> timestamp (merge_step step updates)
            = (case set_timestamp updates of None \<Rightarrow> timestamp step | Some t \<Rightarrow> t)
          \<and> payload (merge_step step updates) key
            = (case set_payload updates key of None \<Rightarrow> payload step key | Some v \<Rightarrow> Some v))
    \<and> isRecording s' = isRecording s \<and> isPaused s' = isPaused s
    \<and> currentTest s' = currentTest s \<and> healingConfig s' = healingConfig s \<and> w' = w"
proof -
  from assms have s': "s' = s\<lparr> steps :=
        map (\<lambda>step. if step_id step = stepId then merge_step step updates else step) (steps s) \<rparr>"
    and w': "w' = w"
    by (simp_all add: updateStep_def dispatch_def)
  have ids: "set_id updates = None \<longrightarrow> map step_id (steps s') = map step_id (steps s)"
    unfolding s' using step_ids_update_None [of updates stepId "steps s"] by simp
  have merge: "\<forall>step key.
          step_id (merge_step step updates)
            = (case set_id updates of None \<Rightarrow> step_id step | Some i \<Rightarrow> i)
          \<and> timestamp (merge_step step updates)
            = (case set_timestamp updates of None \<Rightarrow> timestamp step | Some t \<Rightarrow> t)
          \<and> payload (merge_step step updates) key
            = (case set_payload updates key of None \<Rightarrow> payload step key | Some v \<Rightarrow> Some v)"
    by (simp add: merge_step_def map_add_def)
  show ?thesis
    using ids merge by (simp add: s' w')
qed

theorem updateStep_merges_in_place_witness:
  "steps (fst (updateStep ''a''
      \<lparr> set_id = None, set_timestamp = Some 7, set_payload = [''value'' \<mapsto> ''bob''] \<rparr>
      (initialState\<lparr> steps :=
         [\<lparr> step_id = ''a'', timestamp = 1, payload = type_user \<rparr>,
          \<lparr> step_id = ''c'', timestamp = 2, payload = click_submit \<rparr>] \<rparr>,
       sample_world)))
   = [\<lparr> step_id = ''a'', timestamp = 7, payload = type_user ++ [''value'' \<mapsto> ''bob''] \<rparr>,
      \<lparr> step_id = ''c'', timestamp = 2, payload = click_submit \<rparr>]
   \<and> (type_user ++ [''value'' \<mapsto> ''bob'']) ''value'' = Some ''bob''
   \<and> (type_user ++ [''value'' \<mapsto> ''bob'']) ''selector'' = Some ''#user''"
  using updateStep_merges_in_place [of "''a''"
      "\<lparr> set_id = None, set_timestamp = Some 7, set_payload = [''value'' \<mapsto> ''bob''] \<rparr>"
      "initialState\<lparr> steps :=
         [\<lparr> step_id = ''a'', timestamp = 1, payload = type_user \<rparr>,
          \<lparr> step_id = ''c'', timestamp = 2, payload = click_submit \<rparr>] \<rparr>"
      sample_world
      "fst (updateStep ''a''
      \<lparr> set_id = None, set_timestamp = Some 7, set_payload = [''value'' \<mapsto> ''bob''] \<rparr>
      (initialState\<lparr> steps :=
         [\<lparr> step_id = ''a'', timestamp = 1, payload = type_user \<rparr>,
          \<lparr> step_id = ''c'', timestamp = 2, payload = click_submit \<rparr>] \<rparr>,
       sample_world))"
      "snd (updateStep ''a''
      \<lparr> set_id = None, set_timestamp = Some 7, set_payload = [''value'' \<mapsto> ''bob''] \<rparr>
      (initialState\<lparr> steps :=
         [\<lparr> step_id = ''a'', timestamp = 1, payload = type_user \<rparr>,
          \<lparr> step_id = ''c'', timestamp = 2, payload = click_submit \<rparr>] \<rparr>,
       sample_world))"]
  by (simp add: command_defs merge_step_def type_user_def)

text \<open>
  The claim as stated fails: a \<open>partialFields\<close> that supplies \<open>id\<close> replaces the id of the
  matching step.
\<close>

theorem updateStep_overwrites_id:
  "map step_id (steps (fst (updateStep ''a''
      \<lparr> set_id = Some ''b'', set_timestamp = None, set_payload = Map.empty \<rparr>
      (initialState\<lparr> steps := [\<lparr> step_id = ''a'', timestamp = 1, payload = click_submit \<rparr>] \<rparr>,
       sample_world)))) = [''b'']
   \<and> map step_id (steps (fst (updateStep ''a''
      \<lparr> set_id = Some ''b'', set_timestamp = None, set_payload = Map.empty \<rparr>
      (initialState\<lparr> steps := [\<lparr> step_id = ''a'', timestamp = 1, payload = click_submit \<rparr>] \<rparr>,
       sample_world))))
     \<noteq> map step_id
         (steps (initialState\<lparr> steps :=
            [\<lparr> step_id = ''a'', timestamp = 1, payload = click_submit \<rparr>] \<rparr>))"
  by (simp add: command_defs merge_step_def)

text \<open>
  Claim C8. For an id that no step of the ledger has, \<open>removeStep\<close> and \<open>updateStep\<close>
  return the session unchanged; the reducer has no failing branch.
\<close>

theorem unknown_id_is_noop:
  assumes "stepId \<notin> step_id ` set (steps s)"
  shows "removeStep stepId (s, w) = (s, w) \<and> updateStep stepId updates (s, w) = (s, w)"
  using assms
  by (simp add: removeStep_def updateStep_def dispatch_def filter_unknown_id map_unknown_id)

theorem unknown_id_is_noop_witness:
  "removeStep ''nonexistent-id''
     (initialState\<lparr> steps := [\<lparr> step_id = ''a'', timestamp = 1, payload = click_submit \<rparr>] \<rparr>,
      sample_world)
   = (initialState\<lparr> steps := [\<lparr> step_id = ''a'', timestamp = 1, payload = click_submit \<rparr>] \<rparr>,
      sample_world)
   \<and> updateStep ''nonexistent-id''
     \<lparr> set_id = Some ''b'', set_timestamp = Some 2, set_payload = type_user \<rparr>
     (initialState\<lparr> steps := [\<lparr> step_id = ''a'', timestamp = 1, payload = click_submit \<rparr>] \<rparr>,
      sample_world)
   = (initialState\<lparr> steps := [\<lparr> step_id = ''a'', timestamp = 1, payload = click_submit \<rparr>] \<rparr>,
      sample_world)"
  using unknown_id_is_noop [of "''nonexistent-id''"
      "initialState\<lparr> steps := [\<lparr> step_id = ''a'', timestamp = 1, payload = click_submit \<rparr>] \<rparr>"
      sample_world "\<lparr> set_id = Some ''b'', set_timestamp = Some 2, set_payload = type_user \<rparr>"]
  by simp

section \<open>Healing policy store\<close>

text \<open>
  Claim C6. \<open>updateHealingConfig(partial)\<close> gives each field of the configuration the
  value \<open>partial\<close> supplies for it, keeps the prior value of each field \<open>partial\<close> does not
  supply, and changes nothing else of the session.
\<close>

theorem updateHealingConfig_shallow_merge:
  assumes "updateHealingConfig p (s, w) = (s', w')"
  shows "(case set_enabledStrategies p of
            None \<Rightarrow> enabledStrategies (healingConfig s') = enabledStrategies (healingConfig s)
          | Some v \<Rightarrow> enabledStrategies (healingConfig s') = v)
    \<and> (case set_confidenceThreshold p of
            None \<Rightarrow> confidenceThreshold (healingConfig s') = confidenceThreshold (healingConfig s)
          | Some v \<Rightarrow> confidenceThreshold (healingConfig s') = v)
    \<and> (case set_maxRetryAttempts p of
            None \<Rightarrow> maxRetryAttempts (healingConfig s') = maxRetryAttempts (healingConfig s)
          | Some v \<Rightarrow> maxRetryAttempts (healingConfig s') = v)
    \<and> (case set_fallbackTimeout p of
            None \<Rightarrow> fallbackTimeout (healingConfig s') = fallbackTimeout (healingConfig s)
          | Some v \<Rightarrow> fallbackTimeout (healingConfig s') = v)
    \<and> isRecording s' = isRecording s \<and> isPaused s' = isPaused s
    \<and> currentTest s' = currentTest s \<and> steps s' = steps s \<and> w' = w"
  using assms
  by (auto simp: updateHealingConfig_def dispatch_def merge_config_def split: option.splits)

theorem updateHealingConfig_shallow_merge_witness:
  "healingConfig (fst (updateHealingConfig
      \<lparr> set_enabledStrategies = None, set_confidenceThreshold = Some 0.9,
        set_maxRetryAttempts = None, set_fallbackTimeout = None \<rparr>
      (initialState :: string RecordingState, sample_world)))
   = \<lparr> enabledStrategies = [ATTRIBUTE_MATCHING, TEXT_CONTENT_MATCHING, POSITIONAL_MATCHING],
       confidenceThreshold = 0.9, maxRetryAttempts = 3, fallbackTimeout = 5000 \<rparr>"
  using updateHealingConfig_shallow_merge [of "\<lparr> set_enabledStrategies = None, set_confidenceThreshold = Some 0.9,
        set_maxRetryAttempts = None, set_fallbackTimeout = None \<rparr>"
      "initialState :: string RecordingState" sample_world
      "fst (updateHealingConfig
      \<lparr> set_enabledStrategies = None, set_confidenceThreshold = Some 0.9,
        set_maxRetryAttempts = None, set_fallbackTimeout = None \<rparr>
      (initialState :: string RecordingState, sample_world))"
      "snd (updateHealingConfig
      \<lparr> set_enabledStrategies = None, set_confidenceThreshold = Some 0.9,
        set_maxRetryAttempts = None, set_fallbackTimeout = None \<rparr>
      (initialState :: string RecordingState, sample_world))"]
  by (simp add: initialState_def)

text \<open>
  Claim C10. Every action other than \<open>UPDATE_HEALING_CONFIG\<close>, the unrecognized ones
  included, and every command other than \<open>updateHealingConfig\<close> leaves the healing
  configuration as it was; a run of such commands from the initial state still holds the
  default configuration.
\<close>

theorem healingConfig_only_changed_by_update:
  "((\<forall>p. a \<noteq> UPDATE_HEALING_CONFIG p)
      \<longrightarrow> healingConfig (fst (recordingReducer s a w)) = healingConfig s)
   \<and> ((\<forall>p. c \<noteq> UpdateHealingConfig p)
      \<longrightarrow> healingConfig (fst (perform c (s, w))) = healingConfig s)
   \<and> ((\<forall>c \<in> set cs. \<forall>p. c \<noteq> UpdateHealingConfig p)
      \<longrightarrow> healingConfig (fst (run cs (initialState, w)))
          = \<lparr> enabledStrategies =
                [ATTRIBUTE_MATCHING, TEXT_CONTENT_MATCHING, POSITIONAL_MATCHING],
              confidenceThreshold = 0.8, maxRetryAttempts = 3, fallbackTimeout = 5000 \<rparr>)"
  using healingConfig_reducer [of a s w] healingConfig_perform [of c "(s, w)"]
    healingConfig_run [of cs "(initialState, w)"]
  by (simp add: initialState_def)

theorem healingConfig_only_changed_by_update_witness:
  "healingConfig (fst (recordingReducer (initialState :: string RecordingState)
      (UNRECOGNIZED ''RESET'') sample_world)) = healingConfig (initialState :: string RecordingState)
   \<and> healingConfig (fst (perform (AddStep click_submit) (initialState, sample_world)))
       = healingConfig (initialState :: string RecordingState)
   \<and> healingConfig (fst (run
        [Start ''t'' ''http://a'', AddStep click_submit, Pause, UpdateStep ''u''
           \<lparr> set_id = None, set_timestamp = None, set_payload = type_user \<rparr>,
         RemoveStep ''u'', ClearSteps, Stop] (initialState, sample_world)))
       = \<lparr> enabledStrategies =
                [ATTRIBUTE_MATCHING, TEXT_CONTENT_MATCHING, POSITIONAL_MATCHING],
              confidenceThreshold = 0.8, maxRetryAttempts = 3, fallbackTimeout = 5000 \<rparr>"
  using healingConfig_only_changed_by_update [of "UNRECOGNIZED ''RESET''" "initialState :: string RecordingState" sample_world
      "AddStep click_submit"
      "[Start ''t'' ''http://a'', AddStep click_submit, Pause, UpdateStep ''u''
           \<lparr> set_id = None, set_timestamp = None, set_payload = type_user \<rparr>,
         RemoveStep ''u'', ClearSteps, Stop]"]
  by simp

end
